theory Spec2Isabelle
  imports Complex_Main "HOL-Library.AList"
begin

section \<open>Listings caches of \<open>fsspec/dircache.py\<close>\<close>

text \<open>
  The module defines three mutable mappings from a path key to a listing: one that stores
  nothing, one that lives in memory and one that lives in a \<open>diskcache\<close> store on disk,
  and a factory that selects one of them. Keys and values are opaque to the caches, so the
  model is polymorphic in both. Python dictionaries keep their keys in insertion order and
  are modelled by association lists with distinct keys: \<open>d[k] = v\<close> is \<open>AList.update\<close>
  (the key keeps its place, a new key goes to the end), \<open>d.pop(k, None)\<close> is
  \<open>AList.delete\<close> and \<open>d[k]\<close> is \<open>map_of\<close>. Every exception the module can raise is a
  constructor of \<open>error\<close>. The clock \<open>time.time()\<close> is an argument \<open>now\<close> of each
  operation that reads it. Clock values and durations are doubles, taken as the real
  numbers they denote; the one operation of the module on them that rounds, the subtraction
  in the expiry test of the memory cache, is modelled with its rounding.
\<close>

datatype error = KeyError | TypeError | ImportError | OSError

subsection \<open>\<open>DisabledListingsCache\<close>\<close>

text \<open>The class has no attribute: there is one instance value.\<close>

datatype DisabledListingsCache = DisabledListingsCache

definition d_getitem :: "'k \<Rightarrow> DisabledListingsCache \<Rightarrow> (error + 'v) \<times> DisabledListingsCache" where
  "d_getitem item c = (Inl KeyError, c)"

definition d_setitem :: "'k \<Rightarrow> 'v \<Rightarrow> DisabledListingsCache \<Rightarrow> DisabledListingsCache" where
  "d_setitem key v c = c"

definition d_delitem :: "'k \<Rightarrow> DisabledListingsCache \<Rightarrow> (error + unit) \<times> DisabledListingsCache" where
  "d_delitem key c = (Inr (), c)"

definition d_iter :: "DisabledListingsCache \<Rightarrow> 'k list" where
  "d_iter c = []"

definition d_len :: "DisabledListingsCache \<Rightarrow> nat" where
  "d_len c = 0"

definition d_clear :: "DisabledListingsCache \<Rightarrow> DisabledListingsCache" where
  "d_clear c = c"

definition d_contains :: "'k \<Rightarrow> DisabledListingsCache \<Rightarrow> bool \<times> DisabledListingsCache" where
  "d_contains item c = (False, c)"

definition d_reduce :: "DisabledListingsCache \<Rightarrow> unit" where
  "d_reduce c = ()"

definition d_init :: "DisabledListingsCache" where
  "d_init = DisabledListingsCache"

subsection \<open>\<open>MemoryListingsCache\<close>\<close>

text \<open>
  The attributes \<open>_cache\<close>, \<open>_times\<close>, \<open>_q\<close>, \<open>_expiry_time\<close> and \<open>_max_paths\<close>.
  \<open>max_paths\<close> is a number of listings; \<open>None\<close> and \<open>0\<close> are both false in
  \<open>if max_paths:\<close>. \<open>_q\<close> is \<open>functools.lru_cache(max_paths + 1)\<close> around
  \<open>lambda key: self._cache.pop(key, None)\<close>; it only exists when \<open>max_paths\<close> is true and
  is only called then. Of the wrapper, \<open>m_q\<close> keeps the keys it currently holds, the least
  recently used one first (the results it stores are never read by the class). Its size
  limit is fixed at construction from \<open>max_paths\<close>, which is never assigned again.
\<close>

record ('k, 'v) MemoryListingsCache =
  m_cache :: "('k \<times> 'v) list"
  m_times :: "('k \<times> real) list"
  m_q :: "'k list"
  m_expiry_time :: "real option"
  m_max_paths :: "nat option"

definition truthy :: "nat option \<Rightarrow> bool" where
  "truthy max_paths = (case max_paths of None \<Rightarrow> False | Some n \<Rightarrow> n \<noteq> 0)"

definition lru_maxsize :: "nat option \<Rightarrow> nat" where
  "lru_maxsize max_paths = (case max_paths of None \<Rightarrow> 0 | Some n \<Rightarrow> n + 1)"

definition m_init :: "real option \<Rightarrow> nat option \<Rightarrow> ('k, 'v) MemoryListingsCache" where
  "m_init expiry_time max_paths =
     \<lparr>m_cache = [], m_times = [], m_q = [], m_expiry_time = expiry_time, m_max_paths = max_paths\<rparr>"

text \<open>
  A call \<open>self._q(key)\<close>. On a hit the wrapper moves the key to the most recent end and
  returns the stored result without calling the function. On a miss it calls the function,
  which pops \<open>key\<close> itself from \<open>_cache\<close>, and then stores the key, dropping its own least
  recently used key when it is full. Dropping a key from the wrapper runs no code.
\<close>

definition q_call :: "'k \<Rightarrow> ('k, 'v) MemoryListingsCache \<Rightarrow> ('k, 'v) MemoryListingsCache" where
  "q_call key s =
     (if key \<in> set (m_q s) then s\<lparr>m_q := remove1 key (m_q s) @ [key]\<rparr>
      else
        let s1 = s\<lparr>m_cache := AList.delete key (m_cache s)\<rparr> in
        if lru_maxsize (m_max_paths s1) \<le> length (m_q s1)
        then s1\<lparr>m_q := tl (m_q s1) @ [key]\<rparr>
        else s1\<lparr>m_q := m_q s1 @ [key]\<rparr>)"

text \<open>
  \<open>__getitem__\<close>: the expiry test \<open>self._times.get(item, 0) - time.time() < -self._expiry_time\<close>,
  whose \<open>del self._cache[item]\<close> raises \<open>KeyError\<close> when the key is not stored; then the
  call of \<open>_q\<close>; then the lookup, which raises \<open>KeyError\<close> when the key is not stored.

  The clock values are double-precision floats, and their subtraction is not exact: it
  yields the exact difference rounded to a double. The rounding is the argument \<open>rnd\<close> of
  every operation that runs the expiry test. Negation and comparison are exact. What is
  known of the rounding is stated where a theorem needs it: \<open>rounds rnd\<close>, it never
  reverses an order, and \<open>rnd x = x\<close> for a value \<open>x\<close> that is a double. \<open>exact\<close> is the
  rounding that changes nothing; on clock values that are whole numbers of small size, as
  in the evaluations below, the difference of two doubles is exact.
\<close>

definition rounds :: "(real \<Rightarrow> real) \<Rightarrow> bool" where
  "rounds rnd = (\<forall>x y. x \<le> y \<longrightarrow> rnd x \<le> rnd y)"

definition exact :: "real \<Rightarrow> real" where
  "exact x = x"

definition m_expire :: "(real \<Rightarrow> real) \<Rightarrow> 'k \<Rightarrow> real \<Rightarrow> ('k, 'v) MemoryListingsCache \<Rightarrow> error + ('k, 'v) MemoryListingsCache" where
  "m_expire rnd item now s =
     (case m_expiry_time s of
        None \<Rightarrow> Inr s
      | Some T \<Rightarrow>
          if rnd ((case map_of (m_times s) item of None \<Rightarrow> 0 | Some t \<Rightarrow> t) - now) < - T
          then (case map_of (m_cache s) item of
                  None \<Rightarrow> Inl KeyError
                | Some _ \<Rightarrow> Inr (s\<lparr>m_cache := AList.delete item (m_cache s)\<rparr>))
          else Inr s)"

definition m_getitem :: "(real \<Rightarrow> real) \<Rightarrow> 'k \<Rightarrow> real \<Rightarrow> ('k, 'v) MemoryListingsCache \<Rightarrow> (error + 'v) \<times> ('k, 'v) MemoryListingsCache" where
  "m_getitem rnd item now s =
     (case m_expire rnd item now s of
        Inl e \<Rightarrow> (Inl e, s)
      | Inr s1 \<Rightarrow>
          let s2 = (if truthy (m_max_paths s1) then q_call item s1 else s1) in
          (case map_of (m_cache s2) item of
             None \<Rightarrow> (Inl KeyError, s2)
           | Some v \<Rightarrow> (Inr v, s2)))"

definition m_clear :: "('k, 'v) MemoryListingsCache \<Rightarrow> ('k, 'v) MemoryListingsCache" where
  "m_clear s = s\<lparr>m_cache := []\<rparr>"

definition m_len :: "('k, 'v) MemoryListingsCache \<Rightarrow> nat" where
  "m_len s = length (m_cache s)"

text \<open>\<open>__contains__\<close> runs \<open>self[item]\<close> and turns a \<open>KeyError\<close> into \<open>False\<close>.\<close>

definition m_contains :: "(real \<Rightarrow> real) \<Rightarrow> 'k \<Rightarrow> real \<Rightarrow> ('k, 'v) MemoryListingsCache \<Rightarrow> bool \<times> ('k, 'v) MemoryListingsCache" where
  "m_contains rnd item now s =
     (case m_getitem rnd item now s of
        (Inl e, s') \<Rightarrow> (False, s')
      | (Inr v, s') \<Rightarrow> (True, s'))"

definition m_setitem :: "'k \<Rightarrow> 'v \<Rightarrow> real \<Rightarrow> ('k, 'v) MemoryListingsCache \<Rightarrow> ('k, 'v) MemoryListingsCache" where
  "m_setitem key v now s =
     (let s1 = (if truthy (m_max_paths s) then q_call key s else s);
          s2 = s1\<lparr>m_cache := AList.update key v (m_cache s1)\<rparr>
      in if m_expiry_time s2 \<noteq> None
         then s2\<lparr>m_times := AList.update key now (m_times s2)\<rparr>
         else s2)"

definition m_delitem :: "'k \<Rightarrow> ('k, 'v) MemoryListingsCache \<Rightarrow> (error + unit) \<times> ('k, 'v) MemoryListingsCache" where
  "m_delitem key s =
     (case map_of (m_cache s) key of
        None \<Rightarrow> (Inl KeyError, s)
      | Some _ \<Rightarrow> (Inr (), s\<lparr>m_cache := AList.delete key (m_cache s)\<rparr>))"

definition m_reduce :: "('k, 'v) MemoryListingsCache \<Rightarrow> real option \<times> nat option" where
  "m_reduce s = (m_expiry_time s, m_max_paths s)"

subsection \<open>\<open>FileListingsCache\<close>\<close>

text \<open>
  A \<open>pathlib.Path\<close> is the list of its components; \<open>p / "dircache" / str(expiry_time)\<close>
  appends two components. \<open>str\<close> of the expiry duration, an optional integer, is its
  decimal numeral or \<open>None\<close>.
\<close>

type_synonym path = "string list"

fun str_nat :: "nat \<Rightarrow> string" where
  "str_nat n =
     (if n < 10 then [char_of (48 + n)]
      else str_nat (n div 10) @ [char_of (48 + n mod 10)])"

definition str_expiry :: "int option \<Rightarrow> string" where
  "str_expiry expiry_time =
     (case expiry_time of
        None \<Rightarrow> ''None''
      | Some i \<Rightarrow> if i < 0 then ''-'' @ str_nat (nat (- i)) else str_nat (nat i))"

text \<open>
  Modelled from the spec: the durable store, \<open>diskcache.Cache\<close>, is an external library
  and not part of the repository. The spec treats it as an opaque key-value store with
  per-entry expiry: a read of a key that is absent or already expired yields no value (the
  source says of \<open>Cache.get\<close>: \<open>None, if expired\<close>), a write records the value with the
  time at which it expires, a delete of an absent key fails with \<open>KeyError\<close>, and the keys
  known to the store include entries that are expired but not yet purged. A store is the
  list of its rows: key, value, expiry time. Its own housekeeping (purging of expired rows,
  size limit) and its retries on contention are not modelled. \<open>Python's None\<close> as a
  returned value is \<open>None\<close> of the option type.
\<close>

type_synonym ('k, 'a) store = "('k \<times> 'a list \<times> real option) list"

definition store_live :: "real \<Rightarrow> 'a list \<times> real option \<Rightarrow> bool" where
  "store_live now row = (case snd row of None \<Rightarrow> True | Some t \<Rightarrow> now < t)"

definition store_get :: "'k \<Rightarrow> real \<Rightarrow> ('k, 'a) store \<Rightarrow> 'a list option" where
  "store_get key now st =
     (case map_of st key of
        None \<Rightarrow> None
      | Some row \<Rightarrow> if store_live now row then Some (fst row) else None)"

definition store_set :: "'k \<Rightarrow> 'a list \<Rightarrow> int option \<Rightarrow> real \<Rightarrow> ('k, 'a) store \<Rightarrow> ('k, 'a) store" where
  "store_set key v expire now st =
     AList.update key (v, map_option (\<lambda>e. now + of_int e) expire) st"

definition store_delete :: "'k \<Rightarrow> real \<Rightarrow> ('k, 'a) store \<Rightarrow> error + ('k, 'a) store" where
  "store_delete key now st =
     (case map_of st key of
        None \<Rightarrow> Inl KeyError
      | Some row \<Rightarrow> if store_live now row then Inr (AList.delete key st) else Inl KeyError)"

definition store_iterkeys :: "('k, 'a) store \<Rightarrow> 'k list" where
  "store_iterkeys st = map fst st"

text \<open>
  What a constructor and the operations of the file cache find outside the process:
  whether \<open>platformdirs\<close> and \<open>diskcache\<close> can be imported, the directory
  \<open>platformdirs.user_cache_dir(appname="fsspec")\<close>, whether \<open>mkdir\<close> of a directory
  succeeds, and the store that \<open>Cache(directory=...)\<close> opens at each directory (an empty
  one where none was written yet). The stores outlive the cache objects.
\<close>

record ('k, 'a) env =
  deps_installed :: bool
  user_cache_dir :: path
  mkdir_ok :: "path \<Rightarrow> bool"
  disk :: "path \<Rightarrow> ('k, 'a) store"

text \<open>
  The attributes \<open>_expiry_time\<close> and \<open>_directory\<close>; \<open>_cache\<close> is the store of the
  environment at \<open>_directory\<close>. \<open>directory\<close> is an optional \<open>Path\<close>, false in
  \<open>if not directory\<close> exactly when it is \<open>None\<close>.
\<close>

record FileListingsCache =
  f_expiry_time :: "int option"
  f_directory :: path

definition f_init :: "int option \<Rightarrow> path option \<Rightarrow> ('k, 'a) env \<Rightarrow> error + FileListingsCache" where
  "f_init expiry_time directory env =
     (if \<not> deps_installed env then Inl ImportError
      else
        let directory1 = (case directory of None \<Rightarrow> user_cache_dir env | Some d \<Rightarrow> d);
            directory2 = directory1 @ [''dircache'', str_expiry expiry_time]
        in if \<not> mkdir_ok env directory2 then Inl OSError
           else Inr \<lparr>f_expiry_time = expiry_time, f_directory = directory2\<rparr>)"

text \<open>\<open>__getitem__\<close> returns what \<open>Cache.get\<close> returns.\<close>

definition f_getitem :: "'k \<Rightarrow> real \<Rightarrow> FileListingsCache \<Rightarrow> ('k, 'a) env \<Rightarrow> error + 'a list option" where
  "f_getitem item now c env = Inr (store_get item now (disk env (f_directory c)))"

definition f_clear :: "FileListingsCache \<Rightarrow> ('k, 'a) env \<Rightarrow> ('k, 'a) env" where
  "f_clear c env = env\<lparr>disk := (disk env)(f_directory c := [])\<rparr>"

definition f_len :: "FileListingsCache \<Rightarrow> ('k, 'a) env \<Rightarrow> nat" where
  "f_len c env = length (store_iterkeys (disk env (f_directory c)))"

text \<open>\<open>__contains__\<close>: \<open>if value:\<close> is false for \<open>None\<close> and for an empty listing.\<close>

definition f_contains :: "'k \<Rightarrow> real \<Rightarrow> FileListingsCache \<Rightarrow> ('k, 'a) env \<Rightarrow> bool" where
  "f_contains item now c env =
     (case store_get item now (disk env (f_directory c)) of
        None \<Rightarrow> False
      | Some v \<Rightarrow> v \<noteq> [])"

definition f_setitem :: "'k \<Rightarrow> 'a list \<Rightarrow> real \<Rightarrow> FileListingsCache \<Rightarrow> ('k, 'a) env \<Rightarrow> ('k, 'a) env" where
  "f_setitem key v now c env =
     env\<lparr>disk := (disk env)(f_directory c :=
        store_set key v (f_expiry_time c) now (disk env (f_directory c)))\<rparr>"

definition f_delitem :: "'k \<Rightarrow> real \<Rightarrow> FileListingsCache \<Rightarrow> ('k, 'a) env \<Rightarrow> (error + unit) \<times> ('k, 'a) env" where
  "f_delitem key now c env =
     (case store_delete key now (disk env (f_directory c)) of
        Inl e \<Rightarrow> (Inl e, env)
      | Inr st \<Rightarrow> (Inr (), env\<lparr>disk := (disk env)(f_directory c := st)\<rparr>))"

definition f_reduce :: "FileListingsCache \<Rightarrow> int option \<times> path" where
  "f_reduce c = (f_expiry_time c, f_directory c)"

subsection \<open>Reconstruction\<close>

text \<open>
  Unpickling calls the class that \<open>__reduce__\<close> names on the arguments it gives:
  \<open>DisabledListingsCache()\<close>, \<open>MemoryListingsCache(expiry_time, max_paths)\<close>,
  \<open>FileListingsCache(expiry_time, directory)\<close>.
\<close>

definition d_reconstruct :: "DisabledListingsCache \<Rightarrow> DisabledListingsCache" where
  "d_reconstruct c = (case d_reduce c of () \<Rightarrow> d_init)"

definition m_reconstruct :: "('k, 'v) MemoryListingsCache \<Rightarrow> ('k, 'v) MemoryListingsCache" where
  "m_reconstruct s = (case m_reduce s of (expiry_time, max_paths) \<Rightarrow> m_init expiry_time max_paths)"

definition f_reconstruct :: "FileListingsCache \<Rightarrow> ('k, 'a) env \<Rightarrow> error + FileListingsCache" where
  "f_reconstruct c env = (case f_reduce c of (expiry_time, directory) \<Rightarrow> f_init expiry_time (Some directory) env)"

subsection \<open>\<open>create_listings_cache\<close>\<close>

text \<open>
  \<open>CacheType\<close> is the enumeration; its members are the keys of \<open>cache_map\<close>. Python checks
  no annotation, so the argument \<open>cache_type\<close> is a member or some other object, and the
  lookup \<open>cache_map[cache_type]\<close> raises \<open>KeyError\<close> for the latter. The keyword arguments
  \<open>**kwargs\<close> that the classes know are \<open>max_paths\<close> and \<open>directory\<close>, each given or not:
  \<open>DisabledListingsCache\<close> takes any arguments, \<open>MemoryListingsCache\<close> has no parameter
  \<open>directory\<close>, \<open>FileListingsCache\<close> has no parameter \<open>max_paths\<close> and no default for
  \<open>directory\<close>; a call that does not fit the parameters raises \<open>TypeError\<close>.
\<close>

datatype CacheType = DISABLED | MEMORY | FILE

datatype cache_type_arg = Member CacheType | Other_object

record kwargs =
  kw_max_paths :: "nat option option"
  kw_directory :: "path option option"

datatype ('k, 'v) listings_cache =
    Disabled DisabledListingsCache
  | Memory "('k, 'v) MemoryListingsCache"
  | File FileListingsCache

fun backend_of :: "('k, 'v) listings_cache \<Rightarrow> CacheType" where
  "backend_of (Disabled c) = DISABLED"
| "backend_of (Memory c) = MEMORY"
| "backend_of (File c) = FILE"

fun cache_map :: "cache_type_arg \<Rightarrow> error + CacheType" where
  "cache_map (Member t) = Inr t"
| "cache_map Other_object = Inl KeyError"

fun construct :: "CacheType \<Rightarrow> int option \<Rightarrow> kwargs \<Rightarrow> ('k, 'a) env \<Rightarrow> error + ('k, 'a list) listings_cache" where
  "construct DISABLED expiry_time kw env = Inr (Disabled d_init)"
| "construct MEMORY expiry_time kw env =
     (if kw_directory kw \<noteq> None then Inl TypeError
      else Inr (Memory (m_init (map_option of_int expiry_time)
             (case kw_max_paths kw of None \<Rightarrow> None | Some max_paths \<Rightarrow> max_paths))))"
| "construct FILE expiry_time kw env =
     (if kw_max_paths kw \<noteq> None then Inl TypeError
      else case kw_directory kw of
             None \<Rightarrow> Inl TypeError
           | Some directory \<Rightarrow>
               (case f_init expiry_time directory env of
                  Inl e \<Rightarrow> Inl e
                | Inr c \<Rightarrow> Inr (File c)))"

definition create_listings_cache ::
  "cache_type_arg \<Rightarrow> int option \<Rightarrow> kwargs \<Rightarrow> ('k, 'a) env \<Rightarrow> error + ('k, 'a list) listings_cache" where
  "create_listings_cache cache_type expiry_time kw env =
     (case cache_map cache_type of
        Inl e \<Rightarrow> Inl e
      | Inr t \<Rightarrow> construct t expiry_time kw env)"

text \<open>
  The error kinds of the specification, in its words: \<open>NotFound\<close> is a key that cannot be
  located, \<open>ConfigurationError\<close> an invalid mode or a missing optional dependency,
  \<open>IOError\<close> storage that is unavailable or unwritable. \<open>spec_kind\<close> names the kind the
  specification gives to each exception class of the module: \<open>get\<close> and \<open>delete\<close> raise
  \<open>KeyError\<close> for NotFound, the file cache raises \<open>ImportError\<close> for a missing dependency
  and \<open>OSError\<close> when the directory cannot be created; \<open>TypeError\<close> has no kind there.
\<close>

datatype error_kind = NotFound | ConfigurationError | IOError

fun spec_kind :: "error \<Rightarrow> error_kind option" where
  "spec_kind KeyError = Some NotFound"
| "spec_kind ImportError = Some ConfigurationError"
| "spec_kind OSError = Some IOError"
| "spec_kind TypeError = None"

text \<open>
  A caller's operations on one cache, each with the clock value it runs at. The result of
  an operation, an exception included, is the caller's; the cache goes on from the state
  the operation left.
\<close>

datatype ('k, 'v) m_op =
    Set 'k 'v real
  | Get 'k real
  | Contains 'k real
  | Delete 'k
  | Clear

fun m_step :: "(real \<Rightarrow> real) \<Rightarrow> ('k, 'v) m_op \<Rightarrow> ('k, 'v) MemoryListingsCache \<Rightarrow> ('k, 'v) MemoryListingsCache" where
  "m_step rnd (Set k v now) s = m_setitem k v now s"
| "m_step rnd (Get k now) s = snd (m_getitem rnd k now s)"
| "m_step rnd (Contains k now) s = snd (m_contains rnd k now s)"
| "m_step rnd (Delete k) s = snd (m_delitem k s)"
| "m_step rnd Clear s = m_clear s"

fun m_run :: "(real \<Rightarrow> real) \<Rightarrow> ('k, 'v) m_op list \<Rightarrow> ('k, 'v) MemoryListingsCache \<Rightarrow> ('k, 'v) MemoryListingsCache" where
  "m_run rnd [] s = s"
| "m_run rnd (x # xs) s = m_run rnd xs (m_step rnd x s)"

text \<open>
  \<open>writes k x\<close>: the operation assigns to key \<open>k\<close>. \<open>concerns k x\<close>: the operation names
  key \<open>k\<close> or clears the whole cache.
\<close>

fun writes :: "'k \<Rightarrow> ('k, 'v) m_op \<Rightarrow> bool" where
  "writes k (Set k' v now) = (k' = k)"
| "writes k (Get k' now) = False"
| "writes k (Contains k' now) = False"
| "writes k (Delete k') = False"
| "writes k Clear = False"

fun concerns :: "'k \<Rightarrow> ('k, 'v) m_op \<Rightarrow> bool" where
  "concerns k (Set k' v now) = (k' = k)"
| "concerns k (Get k' now) = (k' = k)"
| "concerns k (Contains k' now) = (k' = k)"
| "concerns k (Delete k') = (k' = k)"
| "concerns k Clear = True"


section \<open>Properties\<close>

subsection \<open>Auxiliary facts\<close>

lemma update_fresh_append:
  "k \<notin> fst ` set al \<Longrightarrow> AList.update k v al = al @ [(k, v)]"
  by (induction al) auto

lemma q_call_config [simp]:
  "m_expiry_time (q_call k s) = m_expiry_time s"
  "m_max_paths (q_call k s) = m_max_paths s"
  "m_times (q_call k s) = m_times s"
  by (simp_all add: q_call_def Let_def)

lemma m_setitem_config [simp]:
  "m_expiry_time (m_setitem k v now s) = m_expiry_time s"
  "m_max_paths (m_setitem k v now s) = m_max_paths s"
  by (simp_all add: m_setitem_def Let_def)

lemma m_run_append: "m_run rnd (xs @ ys) s = m_run rnd ys (m_run rnd xs s)"
  by (induction xs arbitrary: s) simp_all

text \<open>
  Writing distinct keys into a fresh bounded cache: every value is stored, and \<open>_q\<close>
  holds the last \<open>max_paths + 1\<close> keys written.
\<close>

lemma m_run_sets_distinct:
  assumes "0 < N" "distinct ks"
  shows "m_run rnd (map (\<lambda>k. Set k (f k) t0) ks) (m_init e (Some N)) =
     \<lparr>m_cache = map (\<lambda>k. (k, f k)) ks,
      m_times = (if e = None then [] else map (\<lambda>k. (k, t0)) ks),
      m_q = drop (length ks - (N + 1)) ks,
      m_expiry_time = e, m_max_paths = Some N\<rparr>"
  using assms(2)
proof (induction ks rule: rev_induct)
  case Nil
  show ?case by (simp add: m_init_def)
next
  case (snoc k ks)
  then have d: "distinct ks" and nk: "k \<notin> set ks" by simp_all
  have nq: "k \<notin> set (drop (length ks - (N + 1)) ks)"
    using nk by (meson in_set_dropD)
  have c: "k \<notin> fst ` set (map (\<lambda>k. (k, f k)) ks)" using nk by (auto simp: image_iff)
  have t: "k \<notin> fst ` set (map (\<lambda>k. (k, t0)) ks)" using nk by (auto simp: image_iff)
  have tl_drop: "tl (drop n ks) = drop (Suc n) ks" for n
    by (simp add: drop_Suc tl_drop)
  show ?case
    using assms(1) nq
    apply (simp add: m_run_append snoc.IH [OF d] m_setitem_def truthy_def q_call_def
        lru_maxsize_def Let_def update_fresh_append [OF c] update_fresh_append [OF t]
        delete_id [OF c] tl_drop)
    apply (auto intro!: arg_cong [where f = "\<lambda>n. drop n ks"])
    done
qed

lemma map_of_graph: "k \<in> set ks \<Longrightarrow> map_of (map (\<lambda>k. (k, f k)) ks) k = Some (f k)"
  by (induction ks) auto

lemma hd_notin_drop:
  assumes "distinct ks" "0 < n" "n \<le> length ks"
  shows "hd ks \<notin> set (drop n ks)"
proof -
  from assms obtain x xs where ks: "ks = x # xs" by (cases ks) auto
  from assms(2) obtain m where n: "n = Suc m" by (cases n) auto
  have "x \<notin> set xs" using assms(1) ks by simp
  then have "x \<notin> set (drop m xs)" by (meson in_set_dropD)
  then show ?thesis by (simp add: ks n)
qed

lemma m_expire_config:
  "m_expire rnd k now s = Inr s' \<Longrightarrow>
     m_expiry_time s' = m_expiry_time s \<and> m_max_paths s' = m_max_paths s
     \<and> m_times s' = m_times s \<and> m_q s' = m_q s"
  by (auto simp: m_expire_def split: option.splits if_splits)

lemma m_getitem_snd:
  "snd (m_getitem rnd k now s) =
     (case m_expire rnd k now s of
        Inl e \<Rightarrow> s
      | Inr s1 \<Rightarrow> if truthy (m_max_paths s1) then q_call k s1 else s1)"
  by (simp add: m_getitem_def Let_def split: sum.splits option.splits)

lemma m_getitem_config [simp]:
  "m_expiry_time (snd (m_getitem rnd k now s)) = m_expiry_time s"
  "m_max_paths (snd (m_getitem rnd k now s)) = m_max_paths s"
  "m_times (snd (m_getitem rnd k now s)) = m_times s"
proof -
  show "m_expiry_time (snd (m_getitem rnd k now s)) = m_expiry_time s"
    by (cases "m_expire rnd k now s") (simp_all add: m_getitem_snd m_expire_config)
  show "m_max_paths (snd (m_getitem rnd k now s)) = m_max_paths s"
    by (cases "m_expire rnd k now s") (simp_all add: m_getitem_snd m_expire_config)
  show "m_times (snd (m_getitem rnd k now s)) = m_times s"
    by (cases "m_expire rnd k now s") (simp_all add: m_getitem_snd m_expire_config)
qed

lemma m_contains_snd: "snd (m_contains rnd k now s) = snd (m_getitem rnd k now s)"
  by (simp add: m_contains_def split: prod.splits sum.splits)

lemma m_delitem_config [simp]:
  "m_expiry_time (snd (m_delitem k s)) = m_expiry_time s"
  "m_max_paths (snd (m_delitem k s)) = m_max_paths s"
  "m_times (snd (m_delitem k s)) = m_times s"
  "m_q (snd (m_delitem k s)) = m_q s"
  by (simp_all add: m_delitem_def split: option.splits)

lemma m_clear_config [simp]:
  "m_expiry_time (m_clear s) = m_expiry_time s"
  "m_max_paths (m_clear s) = m_max_paths s"
  "m_times (m_clear s) = m_times s"
  "m_q (m_clear s) = m_q s"
  by (simp_all add: m_clear_def)

lemma m_step_config [simp]:
  "m_expiry_time (m_step rnd x s) = m_expiry_time s"
  "m_max_paths (m_step rnd x s) = m_max_paths s"
  by (cases x; simp add: m_contains_snd)+

lemma m_run_config [simp]:
  "m_expiry_time (m_run rnd xs s) = m_expiry_time s"
  "m_max_paths (m_run rnd xs s) = m_max_paths s"
  by (induction xs arbitrary: s) simp_all

lemma m_setitem_times:
  "map_of (m_times (m_setitem k' v now s)) k =
     (if k' = k \<and> m_expiry_time s \<noteq> None then Some now else map_of (m_times s) k)"
  by (auto simp: m_setitem_def Let_def update_conv')

lemma m_step_times:
  "\<not> writes k x \<Longrightarrow> map_of (m_times (m_step rnd x s)) k = map_of (m_times s) k"
  by (cases x) (simp_all add: m_setitem_times m_contains_snd)

lemma m_run_times:
  "\<forall>x\<in>set xs. \<not> writes k x \<Longrightarrow> map_of (m_times (m_run rnd xs s)) k = map_of (m_times s) k"
  by (induction xs arbitrary: s) (simp_all add: m_step_times)

lemma q_call_absent:
  "map_of (m_cache s) k = None \<Longrightarrow> map_of (m_cache (q_call k s)) k = None"
  by (simp add: q_call_def Let_def delete_conv')

lemma rounds_not_below:
  assumes "rounds rnd" "rnd (- T) = - T" "t \<le> t0 + T"
  shows "\<not> rnd (t0 - t) < - T"
proof -
  have "- T \<le> t0 - t" using assms(3) by simp
  then have "rnd (- T) \<le> rnd (t0 - t)" using assms(1) by (simp add: rounds_def)
  then show ?thesis using assms(2) by simp
qed

lemma rounds_below:
  assumes "rounds rnd" "t0 - t \<le> y" "rnd y = y" "y < - T"
  shows "rnd (t0 - t) < - T"
proof -
  have "rnd (t0 - t) \<le> rnd y" using assms(1,2) by (simp add: rounds_def)
  then show ?thesis using assms(3,4) by simp
qed

lemma m_getitem_expired:
  assumes "m_expiry_time s = Some T" "map_of (m_times s) k = Some t0" "rnd (t0 - t) < - T"
  shows "fst (m_getitem rnd k t s) = Inl KeyError"
proof (cases "map_of (m_cache s) k")
  case None
  then show ?thesis using assms by (simp add: m_getitem_def m_expire_def)
next
  case (Some v)
  let ?s1 = "s\<lparr>m_cache := AList.delete k (m_cache s)\<rparr>"
  have e: "m_expire rnd k t s = Inr ?s1" using assms Some by (simp add: m_expire_def)
  have a: "map_of (m_cache ?s1) k = None" by (simp add: delete_conv')
  show ?thesis
    using q_call_absent [OF a] a by (simp add: m_getitem_def e Let_def)
qed

lemma m_setitem_stored:
  "map_of (m_cache (m_setitem k v now s)) k = Some v"
  by (simp add: m_setitem_def Let_def update_conv')

lemma q_call_member: "k \<in> set (m_q (q_call k s))"
  by (simp add: q_call_def Let_def)

lemma m_setitem_tracked:
  "truthy (m_max_paths s) \<Longrightarrow> k \<in> set (m_q (m_setitem k v now s))"
  by (simp add: m_setitem_def Let_def q_call_member)

lemma q_call_hit_cache: "k \<in> set (m_q s) \<Longrightarrow> m_cache (q_call k s) = m_cache s"
  by (simp add: q_call_def)

lemma m_getitem_live:
  assumes "m_expiry_time s = Some T" "map_of (m_times s) k = Some t0" "\<not> rnd (t0 - t) < - T"
    and "map_of (m_cache s) k = Some v"
    and "truthy (m_max_paths s) \<longrightarrow> k \<in> set (m_q s)"
  shows "fst (m_getitem rnd k t s) = Inr v"
proof -
  have e: "m_expire rnd k t s = Inr s" using assms(1-3) by (simp add: m_expire_def)
  show ?thesis using assms(4,5) by (simp add: m_getitem_def e q_call_hit_cache)
qed

lemma m_expire_other:
  "m_expire rnd k' now s = Inr s1 \<Longrightarrow> k' \<noteq> k \<Longrightarrow> map_of (m_cache s1) k = map_of (m_cache s) k"
  by (auto simp: m_expire_def split: option.splits if_splits)

lemma m_getitem_other:
  assumes "k' \<noteq> k" "\<not> truthy (m_max_paths s)"
  shows "map_of (m_cache (snd (m_getitem rnd k' now s))) k = map_of (m_cache s) k"
proof (cases "m_expire rnd k' now s")
  case (Inl e)
  then show ?thesis by (simp add: m_getitem_snd)
next
  case (Inr s1)
  have "m_max_paths s1 = m_max_paths s" using m_expire_config [OF Inr] by simp
  then show ?thesis using assms m_expire_other [OF Inr assms(1)] by (simp add: m_getitem_snd Inr)
qed

lemma m_step_other:
  assumes "\<not> concerns k x" "\<not> truthy (m_max_paths s)"
  shows "map_of (m_cache (m_step rnd x s)) k = map_of (m_cache s) k"
proof (cases x)
  case (Set k' v now)
  then show ?thesis using assms by (simp add: m_setitem_def Let_def update_conv')
next
  case (Get k' now)
  then show ?thesis using assms by (simp add: m_getitem_other)
next
  case (Contains k' now)
  then show ?thesis using assms by (simp add: m_contains_snd m_getitem_other)
next
  case (Delete k')
  then show ?thesis using assms by (simp add: m_delitem_def split: option.splits)
next
  case Clear
  then show ?thesis using assms by simp
qed

lemma m_run_other:
  "\<forall>x\<in>set xs. \<not> concerns k x \<Longrightarrow> \<not> truthy (m_max_paths s) \<Longrightarrow>
     map_of (m_cache (m_run rnd xs s)) k = map_of (m_cache s) k"
  by (induction xs arbitrary: s) (simp_all add: m_step_other)

lemma concerns_writes: "\<not> concerns k x \<Longrightarrow> \<not> writes k x"
  by (cases x) simp_all

lemma expiry_late:
  assumes "m_expiry_time (s :: ('k, 'v) MemoryListingsCache) = Some T"
    and w: "\<forall>x\<in>set ops. \<not> writes k x" and late: "rnd (t0 - t) < - T"
  shows "fst (m_getitem rnd k t (m_run rnd ops (m_setitem k v t0 s))) = Inl KeyError"
proof -
  have ex: "m_expiry_time (m_run rnd ops (m_setitem k v t0 s)) = Some T"
    using assms(1) by simp
  have "map_of (m_times (m_setitem k v t0 s)) k = Some t0"
    using assms(1) by (simp add: m_setitem_times)
  then have tm: "map_of (m_times (m_run rnd ops (m_setitem k v t0 s))) k = Some t0"
    by (simp add: m_run_times [OF w])
  show ?thesis
    by (rule m_getitem_expired [where rnd = rnd, OF ex tm late])
qed


lemma expiry_early_direct:
  assumes "m_expiry_time (s :: ('k, 'v) MemoryListingsCache) = Some T" and early: "t < t0 + T"
    and r: "rounds rnd" and d: "rnd (- T) = - T"
  shows "fst (m_getitem rnd k t (m_setitem k v t0 s)) = Inr v"
proof -
  have ex: "m_expiry_time (m_setitem k v t0 s) = Some T"
    using assms(1) by simp
  have tm: "map_of (m_times (m_setitem k v t0 s)) k = Some t0"
    using assms(1) by (simp add: m_setitem_times)
  have "t \<le> t0 + T" using early by simp
  then have le: "\<not> rnd (t0 - t) < - T" by (rule rounds_not_below [OF r d])
  have tr: "truthy (m_max_paths (m_setitem k v t0 s)) \<longrightarrow> k \<in> set (m_q (m_setitem k v t0 s))"
    using m_setitem_tracked [of s k v t0] by simp
  show ?thesis
    by (rule m_getitem_live [where rnd = rnd, OF ex tm le m_setitem_stored tr])
qed


lemma expiry_early_unbounded:
  assumes "m_expiry_time (s :: ('k, 'v) MemoryListingsCache) = Some T"
    and nt: "\<not> truthy (m_max_paths s)" and o: "\<forall>x\<in>set ops. \<not> concerns k x"
    and early: "t < t0 + T"
    and r: "rounds rnd" and d: "rnd (- T) = - T"
  shows "fst (m_getitem rnd k t (m_run rnd ops (m_setitem k v t0 s))) = Inr v"
proof -
  have w: "\<forall>x\<in>set ops. \<not> writes k x"
  proof
    fix x assume "x \<in> set ops"
    with o have "\<not> concerns k x" by (rule bspec)
    then show "\<not> writes k x" by (rule concerns_writes)
  qed
  have ex: "m_expiry_time (m_run rnd ops (m_setitem k v t0 s)) = Some T"
    using assms(1) by simp
  have "map_of (m_times (m_setitem k v t0 s)) k = Some t0"
    using assms(1) by (simp add: m_setitem_times)
  then have tm: "map_of (m_times (m_run rnd ops (m_setitem k v t0 s))) k = Some t0"
    by (simp add: m_run_times [OF w])
  have nt': "\<not> truthy (m_max_paths (m_setitem k v t0 s))" using nt by simp
  have st: "map_of (m_cache (m_run rnd ops (m_setitem k v t0 s))) k = Some v"
    by (simp add: m_run_other [OF o nt'] m_setitem_stored)
  have "t \<le> t0 + T" using early by simp
  then have le: "\<not> rnd (t0 - t) < - T" by (rule rounds_not_below [OF r d])
  have tr: "truthy (m_max_paths (m_run rnd ops (m_setitem k v t0 s)))
      \<longrightarrow> k \<in> set (m_q (m_run rnd ops (m_setitem k v t0 s)))"
    using nt by simp
  show ?thesis
    by (rule m_getitem_live [where rnd = rnd, OF ex tm le st tr])
qed

lemma q_call_dom: "fst ` set (m_cache (q_call k s)) \<subseteq> fst ` set (m_cache s)"
  using dom_delete_subset [of k "m_cache s"] by (simp add: q_call_def Let_def)

lemma m_expire_dom:
  assumes "m_expire rnd k now s = Inr s1"
  shows "fst ` set (m_cache s1) \<subseteq> fst ` set (m_cache s)"
proof -
  have "s1 = s \<or> s1 = s\<lparr>m_cache := AList.delete k (m_cache s)\<rparr>"
    using assms by (auto simp: m_expire_def split: option.splits if_splits)
  then show ?thesis
  proof
    assume "s1 = s" then show ?thesis by simp
  next
    assume "s1 = s\<lparr>m_cache := AList.delete k (m_cache s)\<rparr>"
    then show ?thesis using dom_delete_subset [of k "m_cache s"] by simp
  qed
qed

lemma m_getitem_dom:
  "fst ` set (m_cache (snd (m_getitem rnd k now s))) \<subseteq> fst ` set (m_cache s)"
proof (cases "m_expire rnd k now s")
  case (Inl e)
  then show ?thesis by (simp add: m_getitem_snd)
next
  case (Inr s1)
  show ?thesis
  proof (cases "truthy (m_max_paths s1)")
    case True
    have "fst ` set (m_cache (q_call k s1)) \<subseteq> fst ` set (m_cache s)"
      using q_call_dom [of k s1] m_expire_dom [OF Inr] by (rule subset_trans)
    then show ?thesis using True by (simp add: m_getitem_snd Inr)
  next
    case False
    then show ?thesis using m_expire_dom [OF Inr] by (simp add: m_getitem_snd Inr)
  qed
qed

lemma m_delitem_dom:
  "fst ` set (m_cache (snd (m_delitem k s))) \<subseteq> fst ` set (m_cache s)"
  using dom_delete_subset [of k "m_cache s"] by (simp add: m_delitem_def split: option.splits)

lemma m_setitem_dom:
  "fst ` set (m_cache (m_setitem k v now s)) \<subseteq> insert k (fst ` set (m_cache s))"
proof (cases "truthy (m_max_paths s)")
  case True
  have "insert k (fst ` set (m_cache (q_call k s))) \<subseteq> insert k (fst ` set (m_cache s))"
    using q_call_dom [of k s] by (rule insert_mono)
  then show ?thesis using True by (simp add: m_setitem_def Let_def dom_update)
next
  case False
  then show ?thesis by (simp add: m_setitem_def Let_def dom_update)
qed

lemma m_setitem_times_dom:
  "m_expiry_time s \<noteq> None \<Longrightarrow>
     fst ` set (m_times (m_setitem k v now s)) = insert k (fst ` set (m_times s))"
  by (auto simp: m_setitem_def Let_def dom_update)

lemma m_step_stamped:
  assumes "m_expiry_time s \<noteq> None" "fst ` set (m_cache s) \<subseteq> fst ` set (m_times s)"
  shows "fst ` set (m_cache (m_step rnd x s)) \<subseteq> fst ` set (m_times (m_step rnd x s))"
proof (cases x)
  case (Set k v now)
  have "fst ` set (m_cache (m_setitem k v now s)) \<subseteq> insert k (fst ` set (m_times s))"
    using m_setitem_dom [of k v now s] insert_mono [OF assms(2), of k] by (rule subset_trans)
  then show ?thesis by (simp only: Set m_step.simps m_setitem_times_dom [OF assms(1)])
next
  case (Get k now)
  have "fst ` set (m_cache (snd (m_getitem rnd k now s))) \<subseteq> fst ` set (m_times s)"
    using m_getitem_dom [of rnd k now s] assms(2) by (rule subset_trans)
  then show ?thesis by (simp add: Get)
next
  case (Contains k now)
  have "fst ` set (m_cache (snd (m_getitem rnd k now s))) \<subseteq> fst ` set (m_times s)"
    using m_getitem_dom [of rnd k now s] assms(2) by (rule subset_trans)
  then show ?thesis by (simp add: Contains m_contains_snd)
next
  case (Delete k)
  have "fst ` set (m_cache (snd (m_delitem k s))) \<subseteq> fst ` set (m_times s)"
    using m_delitem_dom [of k s] assms(2) by (rule subset_trans)
  then show ?thesis by (simp add: Delete)
next
  case Clear
  then show ?thesis by (simp add: m_clear_def)
qed

lemma m_run_stamped:
  "m_expiry_time s \<noteq> None \<Longrightarrow> fst ` set (m_cache s) \<subseteq> fst ` set (m_times s) \<Longrightarrow>
   fst ` set (m_cache (m_run rnd xs s)) \<subseteq> fst ` set (m_times (m_run rnd xs s))"
proof (induction xs arbitrary: s)
  case Nil
  then show ?case by simp
next
  case (Cons x xs)
  have "m_expiry_time (m_step rnd x s) \<noteq> None" using Cons.prems(1) by simp
  then show ?case using Cons.IH m_step_stamped [OF Cons.prems] by simp
qed














lemma m_contains_fresh: "fst (m_contains rnd k now (m_init e mp)) = False"
  by (simp add: m_contains_def m_getitem_def m_expire_def m_init_def q_call_def Let_def
      split: option.splits)

lemma m_reconstruct_init: "m_reconstruct s = m_init (m_expiry_time s) (m_max_paths s)"
  by (simp add: m_reconstruct_def m_reduce_def)

lemma f_reconstruct_expiry:
  "f_reconstruct c env = Inr c' \<Longrightarrow> f_expiry_time c' = f_expiry_time c"
  by (auto simp: f_reconstruct_def f_reduce_def f_init_def Let_def split: if_splits)

lemma f_len_zero: "(f_len c' env = 0) = (disk env (f_directory c') = [])"
  by (simp add: f_len_def store_iterkeys_def)

lemma f_contains_empty: "disk env (f_directory c') = [] \<Longrightarrow> \<not> f_contains k now c' env"
  by (simp add: f_contains_def store_get_def)

subsection \<open>The disabled cache\<close>

text \<open>
  C8. For the disabled backend, for every key and value: get always fails with
  \<open>KeyError\<close> (also right after a set of that key), set and clear change nothing, delete
  never fails, contains is always false, iteration yields no key and the length is zero.
\<close>

theorem disabled_contract:
  "d_getitem key c = (Inl KeyError :: error + 'v, c)
   \<and> d_setitem key (v :: 'v) c = c
   \<and> d_clear c = c
   \<and> d_delitem key c = (Inr (), c)
   \<and> d_contains key c = (False, c)
   \<and> (d_iter c :: 'k list) = []
   \<and> d_len c = 0
   \<and> fst (d_getitem key (d_setitem key v c)) = (Inl KeyError :: error + 'v)
   \<and> d_len (d_setitem key v c) = 0"
  by (simp add: d_getitem_def d_setitem_def d_clear_def d_delitem_def d_contains_def
      d_iter_def d_len_def)

subsection \<open>Reads of a key that has left the tracker\<close>

text \<open>
  C10. For the memory backend with \<open>max_paths = N\<close> (a bound in force, \<open>0 < N\<close>) there is
  a sequence of writes after which a get destroys a live entry: write any \<open>N + 2\<close> or more
  distinct keys \<open>ks\<close> at time \<open>t0\<close>. The value of the first key is then still stored and,
  at a time \<open>now\<close> within the expiry duration, the expiry test does not touch it; yet
  get of that key fails with \<open>KeyError\<close> and has removed the key from the value store.
  This holds for every rounding of the clock difference that keeps the order and leaves
  the expiry duration, a double, as it is.
\<close>

theorem get_destroys_stored_entry:
  assumes "0 < N" and "distinct ks" and "N + 2 \<le> length ks"
    and "\<forall>T. e = Some T \<longrightarrow> now \<le> t0 + T"
    and "rounds rnd" and "\<forall>T. e = Some T \<longrightarrow> rnd (- T) = - T"
  shows "map_of (m_cache (m_run rnd (map (\<lambda>k. Set k (f k) t0) ks) (m_init e (Some N)))) (hd ks)
           = Some (f (hd ks))
     \<and> m_expire rnd (hd ks) now (m_run rnd (map (\<lambda>k. Set k (f k) t0) ks) (m_init e (Some N)))
           = Inr (m_run rnd (map (\<lambda>k. Set k (f k) t0) ks) (m_init e (Some N)))
     \<and> fst (m_getitem rnd (hd ks) now (m_run rnd (map (\<lambda>k. Set k (f k) t0) ks) (m_init e (Some N))))
           = Inl KeyError
     \<and> map_of (m_cache (snd (m_getitem rnd (hd ks) now
           (m_run rnd (map (\<lambda>k. Set k (f k) t0) ks) (m_init e (Some N)))))) (hd ks) = None"
proof -
  let ?s = "m_run rnd (map (\<lambda>k. Set k (f k) t0) ks) (m_init e (Some N))"
  have s: "?s = \<lparr>m_cache = map (\<lambda>k. (k, f k)) ks,
      m_times = (if e = None then [] else map (\<lambda>k. (k, t0)) ks),
      m_q = drop (length ks - (N + 1)) ks,
      m_expiry_time = e, m_max_paths = Some N\<rparr>"
    by (rule m_run_sets_distinct [OF assms(1,2)])
  have hd_in: "hd ks \<in> set ks" using assms(3) by (cases ks) auto
  have stored: "map_of (m_cache ?s) (hd ks) = Some (f (hd ks))"
    by (simp add: s map_of_graph [OF hd_in])
  have time: "e \<noteq> None \<Longrightarrow> map_of (m_times ?s) (hd ks) = Some t0"
    using map_of_graph [OF hd_in, of "\<lambda>_. t0"] by (simp add: s)
  have et: "m_expiry_time ?s = e" by (simp add: s)
  have expire: "m_expire rnd (hd ks) now ?s = Inr ?s"
  proof (cases e)
    case None
    show ?thesis unfolding m_expire_def exact_def et by (simp add: None)
  next
    case (Some T)
    with assms(4) have le: "now \<le> t0 + T" by simp
    from Some assms(6) have d: "rnd (- T) = - T" by simp
    have nb: "\<not> rnd (t0 - now) < - T" by (rule rounds_not_below [OF assms(5) d le])
    have tm: "map_of (m_times ?s) (hd ks) = Some t0" using time Some by simp
    show ?thesis unfolding m_expire_def exact_def et tm using nb by (simp add: Some)
  qed
  have miss: "hd ks \<notin> set (m_q ?s)"
    using hd_notin_drop [OF assms(2), of "length ks - (N + 1)"] assms(3) by (simp add: s)
  have tr: "truthy (m_max_paths ?s)" using assms(1) by (simp add: s truthy_def)
  have get: "m_getitem rnd (hd ks) now ?s = (Inl KeyError, q_call (hd ks) ?s)
      \<and> map_of (m_cache (q_call (hd ks) ?s)) (hd ks) = None"
    using miss tr by (simp add: m_getitem_def expire q_call_def Let_def delete_conv')
  show ?thesis using stored expire get by simp
qed

theorem get_destroys_stored_entry_witness:
  "0 < (1::nat) \<and> distinct [''a'', ''b'', ''c''] \<and> 1 + 2 \<le> length [''a'', ''b'', ''c'']
   \<and> (5::real) \<le> 0 + 10
   \<and> map_of (m_cache (m_run exact [Set ''a'' (7::nat) 0, Set ''b'' 7 0, Set ''c'' 7 0]
        (m_init (Some 10) (Some 1)))) ''a'' = Some 7
   \<and> fst (m_getitem exact ''a'' 5 (m_run exact [Set ''a'' (7::nat) 0, Set ''b'' 7 0, Set ''c'' 7 0]
        (m_init (Some 10) (Some 1)))) = Inl KeyError
   \<and> map_of (m_cache (snd (m_getitem exact ''a'' 5 (m_run exact [Set ''a'' (7::nat) 0, Set ''b'' 7 0,
        Set ''c'' 7 0] (m_init (Some 10) (Some 1)))))) ''a'' = None"
proof -
  have h1: "0 < (1::nat)" by simp
  have h2: "distinct [''a'', ''b'', ''c'']" by simp
  have h3: "1 + 2 \<le> length [''a'', ''b'', ''c'']" by simp
  have h4: "\<forall>T. Some (10::real) = Some T \<longrightarrow> (5::real) \<le> 0 + T" by simp
  have h5: "rounds exact" by (simp add: rounds_def exact_def)
  have h6: "\<forall>T. Some (10::real) = Some T \<longrightarrow> exact (- T) = - T" by (simp add: exact_def)
  show ?thesis
    using h1 h2 h3 h4 get_destroys_stored_entry [OF h1 h2 h3 h4 h5 h6, where f = "\<lambda>_. 7::nat"]
    by simp
qed

subsection \<open>Expiry\<close>

text \<open>
  C4 as stated fails: with expiry duration 10 and \<open>max_paths = 1\<close>, after \<open>set(a)\<close> at
  time 0 and the writes of two other keys, none of them a write to \<open>a\<close>, get of \<open>a\<close> at
  time 1, strictly before \<open>0 + 10\<close>, fails with \<open>KeyError\<close>.
\<close>

theorem early_get_fails_in_bounded_cache:
  "fst (m_getitem exact ''a'' 1 (m_run exact [Set ''b'' (2::nat) 0, Set ''c'' 3 0]
        (m_setitem ''a'' 1 0 (m_init (Some 10) (Some 1))))) = Inl KeyError
   \<and> (1::real) < 0 + 10
   \<and> list_all (\<lambda>x. \<not> writes ''a'' x) [Set ''b'' (2::nat) 0, Set ''c'' 3 0]"
  by (simp add: m_init_def m_setitem_def truthy_def q_call_def lru_maxsize_def m_getitem_def
      m_expire_def exact_def Let_def)

text \<open>
  C4, amended. For the memory backend with expiry duration \<open>T\<close>, for every key \<open>k\<close> and
  value \<open>v\<close>, after \<open>set(k, v)\<close> at time \<open>t0\<close>:

  whatever operations follow that do not write \<open>k\<close> again, get of \<open>k\<close> fails with
  \<open>KeyError\<close> at every time \<open>t\<close> at which the difference \<open>t0 - t\<close>, as the subtraction of
  doubles yields it, is below \<open>- T\<close>; that is so at every time for which some double \<open>y\<close>
  lies between the exact difference and \<open>- T\<close>, \<open>t0 - t \<le> y < - T\<close>, and with an exact
  subtraction at every time strictly after \<open>t0 + T\<close>;

  get of \<open>k\<close> at any time strictly before \<open>t0 + T\<close> returns \<open>v\<close> when it follows the set
  directly and, in a cache without a bound, when only operations on other keys came
  between.
\<close>

theorem expiry_window:
  assumes "m_expiry_time (s :: ('k, 'v) MemoryListingsCache) = Some T"
    and "rounds rnd" and "rnd (- T) = - T"
  shows "(\<forall>ops t. (\<forall>x\<in>set ops. \<not> writes k x) \<longrightarrow> rnd (t0 - t) < - T \<longrightarrow>
            fst (m_getitem rnd k t (m_run rnd ops (m_setitem k v t0 s))) = Inl KeyError)
     \<and> (\<forall>ops t y. (\<forall>x\<in>set ops. \<not> writes k x) \<longrightarrow> t0 - t \<le> y \<longrightarrow> rnd y = y \<longrightarrow> y < - T \<longrightarrow>
            fst (m_getitem rnd k t (m_run rnd ops (m_setitem k v t0 s))) = Inl KeyError)
     \<and> (\<forall>ops t. (\<forall>x\<in>set ops. \<not> writes k x) \<longrightarrow> t0 + T < t \<longrightarrow>
            fst (m_getitem exact k t (m_run exact ops (m_setitem k v t0 s))) = Inl KeyError)
     \<and> (\<forall>t. t < t0 + T \<longrightarrow> fst (m_getitem rnd k t (m_setitem k v t0 s)) = Inr v)
     \<and> (\<forall>ops t. \<not> truthy (m_max_paths s) \<longrightarrow> (\<forall>x\<in>set ops. \<not> concerns k x) \<longrightarrow> t < t0 + T \<longrightarrow>
            fst (m_getitem rnd k t (m_run rnd ops (m_setitem k v t0 s))) = Inr v)"
proof -
  have a: "\<forall>ops t. (\<forall>x\<in>set ops. \<not> writes k x) \<longrightarrow> rnd (t0 - t) < - T \<longrightarrow>
            fst (m_getitem rnd k t (m_run rnd ops (m_setitem k v t0 s))) = Inl KeyError"
    using expiry_late [where rnd = rnd, OF assms(1)] by blast
  have b: "\<forall>ops t y. (\<forall>x\<in>set ops. \<not> writes k x) \<longrightarrow> t0 - t \<le> y \<longrightarrow> rnd y = y \<longrightarrow> y < - T \<longrightarrow>
            fst (m_getitem rnd k t (m_run rnd ops (m_setitem k v t0 s))) = Inl KeyError"
  proof (intro allI impI)
    fix ops :: "('k, 'v) m_op list" and t y
    assume w: "\<forall>x\<in>set ops. \<not> writes k x" and 1: "t0 - t \<le> y" and 2: "rnd y = y" and 3: "y < - T"
    have "rnd (t0 - t) < - T" by (rule rounds_below [OF assms(2) 1 2 3])
    then show "fst (m_getitem rnd k t (m_run rnd ops (m_setitem k v t0 s))) = Inl KeyError"
      by (rule expiry_late [where rnd = rnd, OF assms(1) w])
  qed
  have c: "\<forall>ops t. (\<forall>x\<in>set ops. \<not> writes k x) \<longrightarrow> t0 + T < t \<longrightarrow>
            fst (m_getitem exact k t (m_run exact ops (m_setitem k v t0 s))) = Inl KeyError"
  proof (intro allI impI)
    fix ops :: "('k, 'v) m_op list" and t
    assume w: "\<forall>x\<in>set ops. \<not> writes k x" and "t0 + T < t"
    then have "exact (t0 - t) < - T" by (simp add: exact_def)
    then show "fst (m_getitem exact k t (m_run exact ops (m_setitem k v t0 s))) = Inl KeyError"
      by (rule expiry_late [where rnd = exact, OF assms(1) w])
  qed
  have d: "\<forall>t. t < t0 + T \<longrightarrow> fst (m_getitem rnd k t (m_setitem k v t0 s)) = Inr v"
    using expiry_early_direct [where rnd = rnd, OF assms(1) _ assms(2,3)] by blast
  have e: "\<forall>ops t. \<not> truthy (m_max_paths s) \<longrightarrow> (\<forall>x\<in>set ops. \<not> concerns k x) \<longrightarrow> t < t0 + T \<longrightarrow>
            fst (m_getitem rnd k t (m_run rnd ops (m_setitem k v t0 s))) = Inr v"
    using expiry_early_unbounded [where rnd = rnd, OF assms(1) _ _ _ assms(2,3)] by blast
  from a b c d e show ?thesis by blast
qed

theorem expiry_window_witness:
  "fst (m_getitem exact ''a'' 14 (m_run exact [Get ''b'' 11, Delete ''b'', Set ''b'' 1 12, Clear]
        (m_setitem ''a'' (7::nat) 10 (m_init (Some 3) (Some 1))))) = Inl KeyError
   \<and> fst (m_getitem exact ''a'' 12 (m_setitem ''a'' (7::nat) 10 (m_init (Some 3) (Some 1)))) = Inr 7
   \<and> fst (m_getitem exact ''a'' 12 (m_run exact [Set ''b'' 1 11, Get ''b'' 20, Delete ''c'']
        (m_setitem ''a'' (7::nat) 10 (m_init (Some 3) None)))) = Inr 7"
proof -
  have h1: "m_expiry_time (m_init (Some 3) (Some 1) :: (string, nat) MemoryListingsCache) = Some 3"
    by (simp add: m_init_def)
  have h2: "m_expiry_time (m_init (Some 3) None :: (string, nat) MemoryListingsCache) = Some 3"
    by (simp add: m_init_def)
  have r: "rounds exact" by (simp add: rounds_def exact_def)
  have d: "exact (- 3) = - 3" by (simp add: exact_def)
  note w1 = expiry_window [OF h1 r d, where k = "''a''" and v = 7 and ?t0.0 = 10]
  note w2 = expiry_window [OF h2 r d, where k = "''a''" and v = 7 and ?t0.0 = 10]
  have a: "fst (m_getitem exact ''a'' 14 (m_run exact [Get ''b'' 11, Delete ''b'', Set ''b'' 1 12, Clear]
        (m_setitem ''a'' (7::nat) 10 (m_init (Some 3) (Some 1))))) = Inl KeyError"
    by (rule w1 [THEN conjunct1, rule_format]) (auto simp: exact_def)
  have b: "fst (m_getitem exact ''a'' 12 (m_setitem ''a'' (7::nat) 10 (m_init (Some 3) (Some 1)))) = Inr 7"
    by (rule w1 [THEN conjunct2, THEN conjunct2, THEN conjunct2, THEN conjunct1, rule_format]) simp
  have c: "fst (m_getitem exact ''a'' 12 (m_run exact [Set ''b'' 1 11, Get ''b'' 20, Delete ''c'']
        (m_setitem ''a'' (7::nat) 10 (m_init (Some 3) None)))) = Inr 7"
    by (rule w2 [THEN conjunct2, THEN conjunct2, THEN conjunct2, THEN conjunct2, rule_format])
      (auto simp: m_init_def truthy_def)
  show ?thesis using a b c by simp
qed

subsection \<open>Timestamps\<close>

text \<open>
  C7 as stated fails: after a set and a clear, and likewise after a set and a get past the
  expiry duration, the key still has a timestamp and has no value.
\<close>

theorem timestamps_outlive_values:
  "''a'' \<in> fst ` set (m_times (m_run exact [Set ''a'' (1::nat) 0, Clear] (m_init (Some 10) None)))
   \<and> ''a'' \<notin> fst ` set (m_cache (m_run exact [Set ''a'' (1::nat) 0, Clear] (m_init (Some 10) None)))
   \<and> fst (m_getitem exact ''a'' 20 (m_run exact [Set ''a'' (1::nat) 0] (m_init (Some 10) None))) = Inl KeyError
   \<and> ''a'' \<in> fst ` set (m_times (m_run exact [Set ''a'' (1::nat) 0, Get ''a'' 20] (m_init (Some 10) None)))
   \<and> ''a'' \<notin> fst ` set (m_cache (m_run exact [Set ''a'' (1::nat) 0, Get ''a'' 20] (m_init (Some 10) None)))"
  by (simp add: m_init_def m_setitem_def truthy_def m_getitem_def m_expire_def exact_def m_clear_def Let_def)

text \<open>
  C7, amended. For the memory backend no operation removes a timestamp: get (its
  expiry-triggered removal included), contains, delete and clear leave the timestamp store
  as it was, and clear empties the value store only. The inclusion that holds after every
  sequence of operations on a cache with an expiry duration is the converse one: every key
  of the value store is a key of the timestamp store.
\<close>

theorem timestamps_kept:
  "m_times (snd (m_getitem rnd k now s)) = m_times s
   \<and> m_times (snd (m_contains rnd k now s)) = m_times s
   \<and> m_times (snd (m_delitem k s)) = m_times s
   \<and> m_times (m_clear s) = m_times s
   \<and> m_cache (m_clear s) = []
   \<and> fst ` set (m_cache (m_run rnd ops (m_init (Some T) mp)))
        \<subseteq> fst ` set (m_times (m_run rnd ops (m_init (Some T) mp)))"
proof -
  have "fst ` set (m_cache (m_run rnd ops (m_init (Some T) mp)))
        \<subseteq> fst ` set (m_times (m_run rnd ops (m_init (Some T) mp)))"
    by (rule m_run_stamped) (simp_all add: m_init_def)
  then show ?thesis by (simp add: m_contains_snd m_clear_def)
qed

subsection \<open>The bound \<open>max_paths\<close>\<close>





text \<open>
  C2 on the code: with \<open>max_paths = 1\<close>, after the two writes \<open>a\<close>, \<open>b\<close> and no read, the
  first key is still contained; the wrapper holds both keys.
\<close>

theorem first_key_kept_after_two_writes:
  "m_contains exact ''a'' 0 (m_run exact [Set ''a'' (1::nat) 0, Set ''b'' 2 0] (m_init None (Some 1)))
     = (True, \<lparr>m_cache = [(''a'', 1), (''b'', 2)], m_times = [], m_q = [''b'', ''a''],
          m_expiry_time = None, m_max_paths = Some 1\<rparr>)"
  by (simp add: m_init_def m_setitem_def truthy_def q_call_def lru_maxsize_def m_getitem_def
      m_expire_def exact_def m_contains_def Let_def)

text \<open>
  C3 on the code: with \<open>max_paths = 2\<close>, after \<open>set(a)\<close>, \<open>set(b)\<close>, \<open>get(a)\<close>, \<open>set(c)\<close>
  the key \<open>b\<close> is still contained and the cache holds three entries.
\<close>

theorem read_then_write_keeps_three:
  "fst (m_contains exact ''b'' 0 (m_run exact [Set ''a'' (1::nat) 0, Set ''b'' 2 0, Get ''a'' 0, Set ''c'' 3 0]
      (m_init None (Some 2)))) = True
   \<and> m_len (m_run exact [Set ''a'' (1::nat) 0, Set ''b'' 2 0, Get ''a'' 0, Set ''c'' 3 0]
      (m_init None (Some 2))) = 3
   \<and> m_q (m_run exact [Set ''a'' (1::nat) 0, Set ''b'' 2 0, Get ''a'' 0, Set ''c'' 3 0]
      (m_init None (Some 2))) = [''b'', ''a'', ''c'']"
  by (simp add: m_init_def m_setitem_def truthy_def q_call_def lru_maxsize_def m_getitem_def
      m_expire_def exact_def m_contains_def m_len_def Let_def)

subsection \<open>The file cache\<close>

text \<open>
  C6 on the code: get of the file cache never fails with \<open>KeyError\<close>. For a key that is
  absent from the store, and for a key whose entry has expired by the store's own expiry,
  it returns normally, with the value \<open>None\<close>.
\<close>

theorem file_get_returns_none:
  "f_getitem item now c env \<noteq> Inl KeyError
   \<and> f_getitem item now \<lparr>f_expiry_time = e, f_directory = d\<rparr>
        (env\<lparr>disk := (disk env)(d := [])\<rparr>) = Inr None
   \<and> f_getitem key (now + of_int T + 1) \<lparr>f_expiry_time = Some T, f_directory = d\<rparr>
        (f_setitem key v now \<lparr>f_expiry_time = Some T, f_directory = d\<rparr> env) = Inr None"
  by (simp add: f_getitem_def f_setitem_def store_get_def store_set_def store_live_def update_conv')

text \<open>The same on a fresh cache at \<open>/tmp\<close> with expiry duration 10.\<close>

lemma file_get_missing_key:
  "f_init (Some 10) (Some [''tmp''])
       \<lparr>deps_installed = True, user_cache_dir = [''home''], mkdir_ok = (\<lambda>_. True),
        disk = (\<lambda>_. [] :: (string, nat) store)\<rparr>
     = Inr \<lparr>f_expiry_time = Some 10, f_directory = [''tmp'', ''dircache'', ''10'']\<rparr>
   \<and> f_getitem ''missing'' 0 \<lparr>f_expiry_time = Some 10, f_directory = [''tmp'', ''dircache'', ''10'']\<rparr>
       \<lparr>deps_installed = True, user_cache_dir = [''home''], mkdir_ok = (\<lambda>_. True),
        disk = (\<lambda>_. [] :: (string, nat) store)\<rparr> = Inr None"
  by code_simp

subsection \<open>Reconstruction\<close>

text \<open>
  C5 as stated fails for the file cache. A cache made with directory \<open>tmp\<close> and expiry
  duration 10 stores at \<open>tmp/dircache/10\<close>; the cache reconstructed from it stores at
  \<open>tmp/dircache/10/dircache/10\<close>, another directory; and reconstructing once more,
  after the first reconstructed cache was written to, gives a cache of length 1 that
  contains the key.
\<close>

theorem file_reconstruction_not_fresh:
  "f_init (Some 10) (Some [''tmp''])
       \<lparr>deps_installed = True, user_cache_dir = [''home''], mkdir_ok = (\<lambda>_. True),
        disk = (\<lambda>_. [] :: (string, nat) store)\<rparr>
     = Inr \<lparr>f_expiry_time = Some 10, f_directory = [''tmp'', ''dircache'', ''10'']\<rparr>
   \<and> f_reconstruct \<lparr>f_expiry_time = Some 10, f_directory = [''tmp'', ''dircache'', ''10'']\<rparr>
       \<lparr>deps_installed = True, user_cache_dir = [''home''], mkdir_ok = (\<lambda>_. True),
        disk = (\<lambda>_. [] :: (string, nat) store)\<rparr>
     = Inr \<lparr>f_expiry_time = Some 10,
            f_directory = [''tmp'', ''dircache'', ''10'', ''dircache'', ''10'']\<rparr>
   \<and> [''tmp'', ''dircache'', ''10'', ''dircache'', ''10''] \<noteq> [''tmp'', ''dircache'', ''10'']
   \<and> f_reconstruct \<lparr>f_expiry_time = Some 10, f_directory = [''tmp'', ''dircache'', ''10'']\<rparr>
       (f_setitem ''k'' [1] 0
          \<lparr>f_expiry_time = Some 10, f_directory = [''tmp'', ''dircache'', ''10'', ''dircache'', ''10'']\<rparr>
          \<lparr>deps_installed = True, user_cache_dir = [''home''], mkdir_ok = (\<lambda>_. True),
           disk = (\<lambda>_. [] :: (string, nat) store)\<rparr>)
     = Inr \<lparr>f_expiry_time = Some 10,
            f_directory = [''tmp'', ''dircache'', ''10'', ''dircache'', ''10'']\<rparr>
   \<and> f_len \<lparr>f_expiry_time = Some 10, f_directory = [''tmp'', ''dircache'', ''10'', ''dircache'', ''10'']\<rparr>
       (f_setitem ''k'' [1] 0
          \<lparr>f_expiry_time = Some 10, f_directory = [''tmp'', ''dircache'', ''10'', ''dircache'', ''10'']\<rparr>
          \<lparr>deps_installed = True, user_cache_dir = [''home''], mkdir_ok = (\<lambda>_. True),
           disk = (\<lambda>_. [] :: (string, nat) store)\<rparr>) = 1
   \<and> f_contains ''k'' 0
       \<lparr>f_expiry_time = Some 10, f_directory = [''tmp'', ''dircache'', ''10'', ''dircache'', ''10'']\<rparr>
       (f_setitem ''k'' [1] 0
          \<lparr>f_expiry_time = Some 10, f_directory = [''tmp'', ''dircache'', ''10'', ''dircache'', ''10'']\<rparr>
          \<lparr>deps_installed = True, user_cache_dir = [''home''], mkdir_ok = (\<lambda>_. True),
           disk = (\<lambda>_. [] :: (string, nat) store)\<rparr>)"
  by code_simp

text \<open>
  C5, amended. For the disabled and the memory backend, a cache reconstructed from another
  cache's configuration is equivalently configured (same expiry duration and capacity) and
  starts empty, length 0 and no key contained, regardless of the source cache's contents.
  For the file backend a reconstructed cache has the same expiry duration, and it holds
  what the durable store at its directory holds: its length is 0 exactly when that store
  is empty, and then no key is contained.
\<close>

theorem reconstruction:
  "d_reconstruct c0 = DisabledListingsCache
   \<and> d_len (d_reconstruct c0) = 0
   \<and> fst (d_contains k (d_reconstruct c0)) = False
   \<and> m_expiry_time (m_reconstruct s) = m_expiry_time s
   \<and> m_max_paths (m_reconstruct s) = m_max_paths s
   \<and> m_len (m_reconstruct s) = 0
   \<and> fst (m_contains rnd k' now (m_reconstruct s)) = False
   \<and> (\<forall>c'. f_reconstruct c env = Inr c' \<longrightarrow>
         f_expiry_time c' = f_expiry_time c
         \<and> (f_len c' env = 0 \<longleftrightarrow> disk env (f_directory c') = [])
         \<and> (disk env (f_directory c') = [] \<longrightarrow> \<not> f_contains k'' now c' env))"
proof -
  have d: "d_reconstruct c0 = DisabledListingsCache \<and> d_len (d_reconstruct c0) = 0
      \<and> fst (d_contains k (d_reconstruct c0)) = False"
    by (simp add: d_reconstruct_def d_init_def d_len_def d_contains_def split: unit.split)
  have m1: "m_expiry_time (m_reconstruct s) = m_expiry_time s"
    by (simp add: m_reconstruct_init m_init_def)
  have m2: "m_max_paths (m_reconstruct s) = m_max_paths s"
    by (simp add: m_reconstruct_init m_init_def)
  have m3: "m_len (m_reconstruct s) = 0"
    by (simp add: m_reconstruct_init m_init_def m_len_def)
  have m4: "fst (m_contains rnd k' now (m_reconstruct s)) = False"
    unfolding m_reconstruct_init by (rule m_contains_fresh)
  have f: "\<forall>c'. f_reconstruct c env = Inr c' \<longrightarrow>
         f_expiry_time c' = f_expiry_time c
         \<and> (f_len c' env = 0 \<longleftrightarrow> disk env (f_directory c') = [])
         \<and> (disk env (f_directory c') = [] \<longrightarrow> \<not> f_contains k'' now c' env)"
    using f_reconstruct_expiry [of c env] f_len_zero [of _ env] f_contains_empty [of env _ k'' now]
    by blast
  from d m1 m2 m3 m4 f show ?thesis by blast
qed

theorem reconstruction_witness:
  "m_len (m_run exact [Set ''a'' (1::nat) 0] (m_init (Some 10) (Some 2))) = 1
   \<and> m_len (m_reconstruct (m_run exact [Set ''a'' (1::nat) 0] (m_init (Some 10) (Some 2)))) = 0
   \<and> m_max_paths (m_reconstruct (m_run exact [Set ''a'' (1::nat) 0] (m_init (Some 10) (Some 2)))) = Some 2
   \<and> f_reconstruct \<lparr>f_expiry_time = Some 10, f_directory = [''tmp'', ''dircache'', ''10'']\<rparr>
       \<lparr>deps_installed = True, user_cache_dir = [''home''], mkdir_ok = (\<lambda>_. True),
        disk = (\<lambda>_. [] :: (string, nat) store)\<rparr>
     = Inr \<lparr>f_expiry_time = Some 10,
            f_directory = [''tmp'', ''dircache'', ''10'', ''dircache'', ''10'']\<rparr>
   \<and> f_len \<lparr>f_expiry_time = Some 10,
            f_directory = [''tmp'', ''dircache'', ''10'', ''dircache'', ''10'']\<rparr>
       \<lparr>deps_installed = True, user_cache_dir = [''home''], mkdir_ok = (\<lambda>_. True),
        disk = (\<lambda>_. [] :: (string, nat) store)\<rparr> = 0"
proof -
  let ?s = "m_run exact [Set ''a'' (1::nat) 0] (m_init (Some 10) (Some 2))"
  let ?c = "\<lparr>f_expiry_time = Some 10, f_directory = [''tmp'', ''dircache'', ''10'']\<rparr>"
  let ?c2 = "\<lparr>f_expiry_time = Some 10,
            f_directory = [''tmp'', ''dircache'', ''10'', ''dircache'', ''10'']\<rparr>"
  let ?env = "\<lparr>deps_installed = True, user_cache_dir = [''home''], mkdir_ok = (\<lambda>_. True),
        disk = (\<lambda>_. [] :: (string, nat) store)\<rparr>"
  note r = reconstruction [where s = ?s and c = ?c and env = ?env and ?c0.0 = DisabledListingsCache
      and rnd = exact
      and k = "''a''" and k' = "''a''" and k'' = "''a''" and now = 0]
  have l: "m_len ?s = 1"
    by (simp add: m_len_def m_setitem_def m_init_def truthy_def q_call_def lru_maxsize_def Let_def)
  have mp: "m_max_paths ?s = Some 2" by (simp add: m_init_def)
  have fr: "f_reconstruct ?c ?env = Inr ?c2" by code_simp
  have e: "disk ?env (f_directory ?c2) = []" by simp
  have m: "m_len (m_reconstruct ?s) = 0 \<and> m_max_paths (m_reconstruct ?s) = m_max_paths ?s"
    using r by simp
  have "\<forall>c'. f_reconstruct ?c ?env = Inr c' \<longrightarrow>
      (f_len c' ?env = 0 \<longleftrightarrow> disk ?env (f_directory c') = [])"
    using r by blast
  with fr have "f_len ?c2 ?env = 0 \<longleftrightarrow> disk ?env (f_directory ?c2) = []" by blast
  with e have f: "f_len ?c2 ?env = 0" by blast
  show ?thesis using l m mp fr f by simp
qed

subsection \<open>The factory\<close>

text \<open>
  C9 as stated fails. For an object that is not a recognized mode the factory fails with
  \<open>KeyError\<close>, which is the specification's NotFound and not its ConfigurationError; and
  for the recognized mode \<open>FILE\<close> it returns no instance when the dependencies are
  missing (\<open>ImportError\<close>) or when no \<open>directory\<close> option is given (\<open>TypeError\<close>).
\<close>

theorem create_wrong_kind_or_no_instance:
  "create_listings_cache Other_object (Some 10) \<lparr>kw_max_paths = None, kw_directory = None\<rparr>
       \<lparr>deps_installed = True, user_cache_dir = [''home''], mkdir_ok = (\<lambda>_. True),
        disk = (\<lambda>_. [] :: (string, nat) store)\<rparr> = Inl KeyError
   \<and> spec_kind KeyError = Some NotFound
   \<and> spec_kind KeyError \<noteq> Some ConfigurationError
   \<and> create_listings_cache (Member FILE) (Some 10)
       \<lparr>kw_max_paths = None, kw_directory = Some (Some [''tmp''])\<rparr>
       \<lparr>deps_installed = False, user_cache_dir = [''home''], mkdir_ok = (\<lambda>_. True),
        disk = (\<lambda>_. [] :: (string, nat) store)\<rparr> = Inl ImportError
   \<and> create_listings_cache (Member FILE) (Some 10) \<lparr>kw_max_paths = None, kw_directory = None\<rparr>
       \<lparr>deps_installed = True, user_cache_dir = [''home''], mkdir_ok = (\<lambda>_. True),
        disk = (\<lambda>_. [] :: (string, nat) store)\<rparr> = Inl TypeError"
  by (simp add: create_listings_cache_def f_init_def)

text \<open>
  C9, amended. The factory fails with \<open>KeyError\<close> when the mode is not one of the
  recognized modes. For a recognized mode it calls the constructor of the corresponding
  backend on the expiry duration and the options: for \<open>DISABLED\<close> it always returns the
  disabled cache; for \<open>MEMORY\<close>, given no \<open>directory\<close> option, a fresh memory cache with
  that expiry duration and capacity; for \<open>FILE\<close>, given a directory and no \<open>max_paths\<close>
  option, importable dependencies and a directory that can be created, a file cache at
  that directory extended by \<open>dircache\<close> and the expiry duration. Whenever it returns, the
  instance is of the backend of the mode, and when a constructor fails the error is not
  \<open>KeyError\<close>.
\<close>

theorem create_dispatch:
  "create_listings_cache Other_object e kw env = Inl KeyError
   \<and> create_listings_cache (Member DISABLED) e kw env = Inr (Disabled DisabledListingsCache)
   \<and> (kw_directory kw = None \<longrightarrow>
        create_listings_cache (Member MEMORY) e kw env
          = Inr (Memory (m_init (map_option of_int e)
              (case kw_max_paths kw of None \<Rightarrow> None | Some max_paths \<Rightarrow> max_paths))))
   \<and> (\<forall>d. kw_max_paths kw = None \<and> kw_directory kw = Some (Some d) \<and> deps_installed env
          \<and> mkdir_ok env (d @ [''dircache'', str_expiry e]) \<longrightarrow>
        create_listings_cache (Member FILE) e kw env
          = Inr (File \<lparr>f_expiry_time = e, f_directory = d @ [''dircache'', str_expiry e]\<rparr>))
   \<and> (\<forall>t c. create_listings_cache (Member t) e kw env = Inr c \<longrightarrow> backend_of c = t)
   \<and> (\<forall>t err. create_listings_cache (Member t) e kw env = Inl err \<longrightarrow> err \<noteq> KeyError)"
proof -
  have a: "\<forall>t c. create_listings_cache (Member t) e kw env = Inr c \<longrightarrow> backend_of c = t"
  proof (intro allI impI)
    fix t c assume "create_listings_cache (Member t) e kw env = Inr c"
    then show "backend_of c = t"
      by (cases t) (auto simp: create_listings_cache_def split: if_splits option.splits sum.splits)
  qed
  have b: "\<forall>t err. create_listings_cache (Member t) e kw env = Inl err \<longrightarrow> err \<noteq> KeyError"
  proof (intro allI impI)
    fix t err assume "create_listings_cache (Member t) e kw env = Inl err"
    then show "err \<noteq> KeyError"
      by (cases t) (auto simp: create_listings_cache_def f_init_def Let_def
          split: if_splits option.splits sum.splits)
  qed
  show ?thesis using a b
    by (simp add: create_listings_cache_def d_init_def f_init_def Let_def)
qed

theorem create_dispatch_witness:
  "create_listings_cache (Member MEMORY) (Some 10)
       \<lparr>kw_max_paths = Some (Some 3), kw_directory = None\<rparr>
       \<lparr>deps_installed = True, user_cache_dir = [''home''], mkdir_ok = (\<lambda>_. True),
        disk = (\<lambda>_. [] :: (string, nat) store)\<rparr>
     = Inr (Memory (m_init (Some 10) (Some 3)))
   \<and> create_listings_cache (Member FILE) (Some 10)
       \<lparr>kw_max_paths = None, kw_directory = Some (Some [''tmp''])\<rparr>
       \<lparr>deps_installed = True, user_cache_dir = [''home''], mkdir_ok = (\<lambda>_. True),
        disk = (\<lambda>_. [] :: (string, nat) store)\<rparr>
     = Inr (File \<lparr>f_expiry_time = Some 10, f_directory = [''tmp'', ''dircache'', str_expiry (Some 10)]\<rparr>)
   \<and> backend_of (File \<lparr>f_expiry_time = Some 10, f_directory = [''tmp'', ''dircache'', str_expiry (Some 10)]\<rparr>
        :: (string, nat list) listings_cache) = FILE"
proof -
  let ?env = "\<lparr>deps_installed = True, user_cache_dir = [''home''], mkdir_ok = (\<lambda>_. True),
        disk = (\<lambda>_. [] :: (string, nat) store)\<rparr>"
  note m = create_dispatch [where e = "Some 10"
      and kw = "\<lparr>kw_max_paths = Some (Some 3), kw_directory = None\<rparr>" and env = ?env]
  note f = create_dispatch [where e = "Some 10"
      and kw = "\<lparr>kw_max_paths = None, kw_directory = Some (Some [''tmp''])\<rparr>" and env = ?env]
  have a: "create_listings_cache (Member MEMORY) (Some 10)
       \<lparr>kw_max_paths = Some (Some 3), kw_directory = None\<rparr> ?env
     = Inr (Memory (m_init (Some 10) (Some 3)))"
    using m by simp
  have b: "create_listings_cache (Member FILE) (Some 10)
       \<lparr>kw_max_paths = None, kw_directory = Some (Some [''tmp''])\<rparr> ?env
     = Inr (File \<lparr>f_expiry_time = Some 10, f_directory = [''tmp'', ''dircache'', str_expiry (Some 10)]\<rparr>)"
    using f by simp
  have c: "backend_of (File \<lparr>f_expiry_time = Some 10, f_directory = [''tmp'', ''dircache'', str_expiry (Some 10)]\<rparr>
        :: (string, nat list) listings_cache) = FILE"
    using f b by blast
  show ?thesis using a b c by simp
qed

end
